theory Spec2Isabelle
  imports Main "HOL-Library.Word"
begin

unbundle bit_operations_syntax

section \<open>Data model of the I2S driver (mbed-drivers/I2S.h, source/I2S.cpp)\<close>

text \<open>
  An I2S object is identified by its address (the \<open>this\<close> pointer), a natural number.
  Buffer addresses and sizes are natural numbers (no arithmetic is done on them), return
  codes are integers, event masks are 32-bit words (the C \<open>int\<close> the handlers combine
  with bitwise and/or). A callback is the identity of the bound function, \<open>None\<close> for the
  null function pointer that the Boolean conversion of \<open>event_callback_t\<close> tests.
  The values of the enumerations \<open>i2s_bitorder_t\<close> and \<open>i2s_mode_t\<close> are their integer
  codes.
\<close>

type_synonym handle = nat
type_synonym event_mask = "32 word"
type_synonym event_callback_t = "nat option"

record Buffer =
  buf :: nat
  buf_length :: nat

text \<open>
  \<open>TwoWayTransaction<event_callback_t>\<close> (Transaction.h): the fields the driver reads
  and writes.
\<close>

record TwoWayTransaction =
  tx_buffer :: Buffer
  rx_buffer :: Buffer
  event :: event_mask
  callback :: event_callback_t

text \<open>\<open>transaction_data_t\<close>: the fields \<open>_transaction\<close> and \<open>_circular\<close>.\<close>

record transaction_data_t =
  transaction :: TwoWayTransaction
  circular :: bool

text \<open>
  \<open>transaction_t = Transaction<I2S, transaction_data_t>\<close>: the object that submitted the
  transfer (\<open>get_object\<close>) and a copy of its data (\<open>get_transaction\<close>).
\<close>

type_synonym transaction_t = "handle \<times> transaction_data_t"

text \<open>The interrupt handler a \<open>CThunk\<close> is bound to.\<close>

datatype irq_handler = Irq_handler_asynch_tx | Irq_handler_asynch_rx

text \<open>The non-static members of one \<open>I2S\<close> object.\<close>

record I2S =
  dbits :: int
  fbits :: int
  polarity :: int
  protocol :: nat
  mode :: nat
  busy :: bool
  hz :: nat
  current_transaction :: transaction_data_t
  irq_tx :: "irq_handler option"
  irq_rx :: "irq_handler option"

text \<open>
  The hardware abstraction layer (i2s_api.h) belongs to another repository. Its commands
  are recorded in a trace, oldest first, each with the object whose \<open>_i2s\<close> it is given.
  Its two queries, \<open>i2s_active\<close> and \<open>i2s_irq_handler_asynch\<close>, are inputs: the value the
  call returns is a parameter of the operation that makes the call.
\<close>

datatype hal_call =
  I2s_format handle int int int
| I2s_audio_frequency handle nat
| I2s_set_protocol handle nat
| I2s_set_mode handle nat
| I2s_master_transfer handle Buffer Buffer bool event_mask
| I2s_abort_asynch handle

text \<open>
  A deferred callback handed to \<open>minar::Scheduler::postCallback\<close>: the callback bound to
  the tx buffer, the rx buffer and an event mask.
\<close>

type_synonym posted_callback = "nat \<times> Buffer \<times> Buffer \<times> event_mask"

text \<open>
  The whole driver state: every I2S object, the two static members \<open>I2S::_owner\<close> and
  \<open>I2S::_transaction_buffer\<close> (one of each, whatever the number of objects), the trace
  of HAL commands and the callbacks posted to the scheduler, oldest first.
\<close>

record driver =
  objs :: "handle \<Rightarrow> I2S"
  owner :: "handle option"
  transaction_buffer :: "transaction_t list"
  hal :: "hal_call list"
  minar :: "posted_callback list"

section \<open>The bounded transfer queue\<close>

text \<open>
  Modelled from the spec: \<open>CircularBuffer<T, N>\<close> (CircularBuffer.h is not among the
  sources). A FIFO of fixed capacity: \<open>full\<close> when it holds the capacity, \<open>push\<close>
  appends, \<open>pop\<close> removes and returns the oldest entry or reports empty, \<open>reset\<close>
  empties it. The driver pushes only after \<open>full\<close> has answered no.
\<close>

definition full :: "nat \<Rightarrow> 'a list \<Rightarrow> bool" where
  "full cap q = (cap \<le> length q)"

definition push :: "'a list \<Rightarrow> 'a \<Rightarrow> 'a list" where
  "push q x = q @ [x]"

fun pop :: "'a list \<Rightarrow> ('a \<times> 'a list) option" where
  "pop [] = None"
| "pop (x # q) = Some (x, q)"

definition reset :: "'a list \<Rightarrow> 'a list" where
  "reset q = []"

section \<open>Operations of I2S\<close>

text \<open>Assignment to one member of the object \<open>h\<close>.\<close>

definition upd :: "driver \<Rightarrow> handle \<Rightarrow> (I2S \<Rightarrow> I2S) \<Rightarrow> driver" where
  "upd st h f = st\<lparr>objs := (objs st)(h := f (objs st h))\<rparr>"

definition hal_emit :: "driver \<Rightarrow> hal_call list \<Rightarrow> driver" where
  "hal_emit st cs = st\<lparr>hal := hal st @ cs\<rparr>"

text \<open>\<open>I2S::aquire\<close>: the configuration is written to the unit unless this object wrote last.\<close>

definition aquire :: "driver \<Rightarrow> handle \<Rightarrow> driver" where
  "aquire st h =
     (if owner st \<noteq> Some h then
        (hal_emit st
           [I2s_format h (dbits (objs st h)) (fbits (objs st h)) (polarity (objs st h)),
            I2s_audio_frequency h (hz (objs st h)),
            I2s_set_protocol h (protocol (objs st h)),
            I2s_set_mode h (mode (objs st h))])\<lparr>owner := Some h\<rparr>
      else st)"

text \<open>The four configuration setters: store, clear \<open>_owner\<close>, call \<open>aquire\<close>.\<close>

definition format :: "driver \<Rightarrow> handle \<Rightarrow> int \<Rightarrow> int \<Rightarrow> int \<Rightarrow> driver" where
  "format st h d f p =
     aquire ((upd st h (\<lambda>obj. obj\<lparr>dbits := d, fbits := f, polarity := p\<rparr>))\<lparr>owner := None\<rparr>) h"

definition audio_frequency :: "driver \<Rightarrow> handle \<Rightarrow> nat \<Rightarrow> driver" where
  "audio_frequency st h z =
     aquire ((upd st h (\<lambda>obj. obj\<lparr>hz := z\<rparr>))\<lparr>owner := None\<rparr>) h"

definition set_protocol :: "driver \<Rightarrow> handle \<Rightarrow> nat \<Rightarrow> driver" where
  "set_protocol st h p =
     aquire ((upd st h (\<lambda>obj. obj\<lparr>protocol := p\<rparr>))\<lparr>owner := None\<rparr>) h"

definition set_mode :: "driver \<Rightarrow> handle \<Rightarrow> nat \<Rightarrow> driver" where
  "set_mode st h m =
     aquire ((upd st h (\<lambda>obj. obj\<lparr>mode := m\<rparr>))\<lparr>owner := None\<rparr>) h"

text \<open>
  \<open>I2S::start_transfer\<close>: acquire, store the descriptor, bind the two interrupt thunks,
  start the hardware.
\<close>

definition start_transfer :: "driver \<Rightarrow> handle \<Rightarrow> transaction_data_t \<Rightarrow> driver" where
  "start_transfer st h d =
     hal_emit
       (upd (aquire st h) h
          (\<lambda>obj. obj\<lparr>current_transaction := d,
                 irq_tx := Some Irq_handler_asynch_tx,
                 irq_rx := Some Irq_handler_asynch_rx\<rparr>))
       [I2s_master_transfer h (tx_buffer (transaction d)) (rx_buffer (transaction d))
          (circular d) (event (transaction d))]"

text \<open>
  \<open>I2S::queue_transfer\<close>. The parameter \<open>cap\<close> is \<open>TRANSACTION_QUEUE_SIZE_I2S\<close>; with
  \<open>cap = 0\<close> the queue is compiled out and the function only returns -1.
\<close>

definition queue_transfer :: "nat \<Rightarrow> driver \<Rightarrow> handle \<Rightarrow> transaction_data_t \<Rightarrow> int \<times> driver" where
  "queue_transfer cap st h d =
     (if cap \<noteq> 0 then
        (if full cap (transaction_buffer st) then (- 1, st)
         else (0, st\<lparr>transaction_buffer := push (transaction_buffer st) (h, d)\<rparr>))
      else (- 1, st))"

text \<open>\<open>I2S::start_transaction\<close> and \<open>I2S::dequeue_transaction\<close> (compiled when \<open>cap \<noteq> 0\<close>).\<close>

definition start_transaction :: "driver \<Rightarrow> handle \<Rightarrow> transaction_data_t \<Rightarrow> driver" where
  "start_transaction st h d = start_transfer st h d"

definition dequeue_transaction :: "driver \<Rightarrow> handle \<Rightarrow> driver" where
  "dequeue_transaction st h =
     (case pop (transaction_buffer st) of
        None \<Rightarrow> upd st h (\<lambda>obj. obj\<lparr>busy := False\<rparr>)
      | Some (t, q) \<Rightarrow>
          start_transaction
            (upd (st\<lparr>transaction_buffer := q\<rparr>) h (\<lambda>obj. obj\<lparr>busy := True\<rparr>))
            (fst t) (snd t))"

text \<open>\<open>I2S::abort_transfer\<close>, \<open>I2S::clear_transfer_buffer\<close>, \<open>I2S::abort_all_transfers\<close>.\<close>

definition abort_transfer :: "nat \<Rightarrow> driver \<Rightarrow> handle \<Rightarrow> driver" where
  "abort_transfer cap st h =
     (let st1 = hal_emit st [I2s_abort_asynch h]
      in if cap \<noteq> 0 then dequeue_transaction st1 h else st1)"

definition clear_transfer_buffer :: "nat \<Rightarrow> driver \<Rightarrow> handle \<Rightarrow> driver" where
  "clear_transfer_buffer cap st h =
     (if cap \<noteq> 0 then st\<lparr>transaction_buffer := reset (transaction_buffer st)\<rparr> else st)"

definition abort_all_transfers :: "nat \<Rightarrow> driver \<Rightarrow> handle \<Rightarrow> driver" where
  "abort_all_transfers cap st h = abort_transfer cap (clear_transfer_buffer cap st h) h"

text \<open>\<open>I2S::get_transfer_status\<close>; \<open>active\<close> is what \<open>i2s_active\<close> returns.\<close>

definition get_transfer_status :: "bool \<Rightarrow> int" where
  "get_transfer_status active = (if active then - 1 else 0)"

text \<open>
  The interrupt handlers. \<open>ev\<close> is what \<open>i2s_irq_handler_asynch\<close> returns for the
  channel; \<open>ev_all\<close> and \<open>ev_internal\<close> are the constants \<open>I2S_EVENT_ALL\<close> and
  \<open>I2S_EVENT_INTERNAL_TRANSFER_COMPLETE\<close> of the HAL header.
\<close>

definition irq_handler_asynch_rx ::
  "nat \<Rightarrow> event_mask \<Rightarrow> event_mask \<Rightarrow> driver \<Rightarrow> handle \<Rightarrow> event_mask \<Rightarrow> driver" where
  "irq_handler_asynch_rx cap ev_all ev_internal st h ev =
     (let t = transaction (current_transaction (objs st h));
          st1 = (case callback t of
                   Some cb \<Rightarrow>
                     (if ev AND ev_all \<noteq> 0
                      then st\<lparr>minar := minar st @ [(cb, tx_buffer t, rx_buffer t, ev AND ev_all)]\<rparr>
                      else st)
                 | None \<Rightarrow> st)
      in if cap \<noteq> 0 \<and> ev AND (ev_all OR ev_internal) \<noteq> 0
         then dequeue_transaction st1 h else st1)"

definition irq_handler_asynch_tx ::
  "nat \<Rightarrow> event_mask \<Rightarrow> event_mask \<Rightarrow> driver \<Rightarrow> handle \<Rightarrow> event_mask \<Rightarrow> driver" where
  "irq_handler_asynch_tx cap ev_all ev_internal st h ev =
     (let t = transaction (current_transaction (objs st h));
          st1 = (case callback t of
                   Some cb \<Rightarrow>
                     (if ev AND ev_all \<noteq> 0
                      then st\<lparr>minar := minar st @ [(cb, tx_buffer t, rx_buffer t, ev AND ev_all)]\<rparr>
                      else st)
                 | None \<Rightarrow> st)
      in if cap \<noteq> 0 \<and> ev AND (ev_all OR ev_internal) \<noteq> 0
         then dequeue_transaction st1 h else st1)"

section \<open>The transfer builder I2STransferAdder\<close>

record I2STransferAdder =
  td :: transaction_data_t
  applied :: bool
  rc :: int
  adder_owner :: handle

text \<open>
  \<open>I2S::transfer(const I2STransferAdder &)\<close>: test-and-set of \<open>_busy\<close>, then queue or
  start. \<open>active\<close> is what \<open>i2s_active\<close> returns (asked only when the flag was clear).
\<close>

definition transfer :: "nat \<Rightarrow> driver \<Rightarrow> handle \<Rightarrow> I2STransferAdder \<Rightarrow> bool \<Rightarrow> int \<times> driver" where
  "transfer cap st h a active =
     (let queue = busy (objs st h);
          st1 = upd st h (\<lambda>obj. obj\<lparr>busy := True\<rparr>)
      in if queue \<or> active then queue_transfer cap st1 h (td a)
         else (0, start_transfer st1 h (td a)))"

text \<open>
  The private constructor. The storage it is built in is \<open>raw\<close>: the constructor leaves
  the buffer pointers and the event mask as they are.
\<close>

definition I2STransferAdder_init :: "I2STransferAdder \<Rightarrow> handle \<Rightarrow> I2STransferAdder" where
  "I2STransferAdder_init raw ow =
     \<lparr>td = \<lparr>transaction =
              (transaction (td raw))
                \<lparr>tx_buffer := (tx_buffer (transaction (td raw)))\<lparr>buf_length := 0\<rparr>,
                 rx_buffer := (rx_buffer (transaction (td raw)))\<lparr>buf_length := 0\<rparr>,
                 callback := None\<rparr>,
            circular = False\<rparr>,
      applied = False, rc = 0, adder_owner = ow\<rparr>"

text \<open>\<open>operator =\<close> and the copy constructor (which assigns into raw storage).\<close>

definition I2STransferAdder_assign :: "I2STransferAdder \<Rightarrow> I2STransferAdder \<Rightarrow> I2STransferAdder" where
  "I2STransferAdder_assign this a = this\<lparr>td := td a, adder_owner := adder_owner a, applied := False\<rparr>"

definition I2STransferAdder_copy :: "I2STransferAdder \<Rightarrow> I2STransferAdder \<Rightarrow> I2STransferAdder" where
  "I2STransferAdder_copy raw a = I2STransferAdder_assign raw a"

text \<open>
  Modelled from the spec: \<open>MBED_ASSERT\<close> (mbed_assert.h is not among the sources) fails
  fast when its condition is false: the call does not return, which is the value
  \<open>Inl AssertionFailed\<close>.

  The member functions \<open>tx\<close>, \<open>rx\<close>, \<open>circular\<close>, \<open>callback\<close> and \<open>apply\<close> of the
  builder and its destructor are \<open>adder_tx\<close>, \<open>adder_rx\<close>, \<open>adder_circular\<close>,
  \<open>adder_callback\<close>, \<open>adder_apply\<close> and \<open>adder_destroy\<close> here (the plain names are
  fields of the descriptor or reserved words).
\<close>

datatype error = AssertionFailed

definition adder_tx :: "I2STransferAdder \<Rightarrow> nat \<Rightarrow> nat \<Rightarrow> error + I2STransferAdder" where
  "adder_tx a txBuf txSize =
     (if buf_length (tx_buffer (transaction (td a))) \<noteq> 0 then Inl AssertionFailed
      else Inr (a\<lparr>td := (td a)\<lparr>transaction :=
                  (transaction (td a))\<lparr>tx_buffer := \<lparr>buf = txBuf, buf_length = txSize\<rparr>\<rparr>\<rparr>\<rparr>))"

definition adder_rx :: "I2STransferAdder \<Rightarrow> nat \<Rightarrow> nat \<Rightarrow> error + I2STransferAdder" where
  "adder_rx a rxBuf rxSize =
     (if buf_length (rx_buffer (transaction (td a))) \<noteq> 0 then Inl AssertionFailed
      else Inr (a\<lparr>td := (td a)\<lparr>transaction :=
                  (transaction (td a))\<lparr>rx_buffer := \<lparr>buf = rxBuf, buf_length = rxSize\<rparr>\<rparr>\<rparr>\<rparr>))"

definition adder_circular :: "I2STransferAdder \<Rightarrow> bool \<Rightarrow> error + I2STransferAdder" where
  "adder_circular a m = Inr (a\<lparr>td := (td a)\<lparr>circular := m\<rparr>\<rparr>)"

definition adder_callback ::
  "I2STransferAdder \<Rightarrow> event_callback_t \<Rightarrow> event_mask \<Rightarrow> error + I2STransferAdder" where
  "adder_callback a cb e =
     (if callback (transaction (td a)) \<noteq> None then Inl AssertionFailed
      else Inr (a\<lparr>td := (td a)\<lparr>transaction :=
                  (transaction (td a))\<lparr>callback := cb, event := e\<rparr>\<rparr>\<rparr>))"

text \<open>
  \<open>apply\<close> returns the code, the driver state and the builder; the destructor calls
  \<open>apply\<close> and drops the code and the builder.
\<close>

definition adder_apply ::
  "nat \<Rightarrow> driver \<Rightarrow> I2STransferAdder \<Rightarrow> bool \<Rightarrow> int \<times> driver \<times> I2STransferAdder" where
  "adder_apply cap st a active =
     (if \<not> applied a then
        (let a1 = a\<lparr>applied := True\<rparr>;
             r = transfer cap st (adder_owner a1) a1 active
         in (fst r, snd r, a1\<lparr>rc := fst r\<rparr>))
      else (rc a, st, a))"

definition adder_destroy :: "nat \<Rightarrow> driver \<Rightarrow> I2STransferAdder \<Rightarrow> bool \<Rightarrow> driver" where
  "adder_destroy cap st a active = fst (snd (adder_apply cap st a active))"

text \<open>
  \<open>I2S::transfer()\<close>: a fresh builder for this object. The local builder is the
  returned one (the copy on return is elided); were it copied, the local one would
  submit its empty descriptor when destroyed.
\<close>

definition transfer_adder :: "I2STransferAdder \<Rightarrow> handle \<Rightarrow> I2STransferAdder" where
  "transfer_adder raw h = I2STransferAdder_init raw h"

section \<open>Auxiliary definitions for the statements\<close>

text \<open>
  The four HAL commands by which \<open>aquire\<close> writes the configuration of an object to
  the unit, in the order of the source.
\<close>

definition full_configuration :: "handle \<Rightarrow> I2S \<Rightarrow> hal_call list" where
  "full_configuration h obj =
     [I2s_format h (dbits obj) (fbits obj) (polarity obj),
      I2s_audio_frequency h (hz obj),
      I2s_set_protocol h (protocol obj),
      I2s_set_mode h (mode obj)]"

text \<open>
  Concrete data for the examples: a descriptor whose tx buffer is at address \<open>n\<close>, with
  callback \<open>n\<close> registered for the event mask \<open>m\<close>; an object as the constructor
  leaves it (16 data bits, 16 frame bits, polarity 0, 44100 Hz), with a chosen busy flag
  and current transfer; a driver state in which every object is such an object.
\<close>

definition ex_td :: "nat \<Rightarrow> event_mask \<Rightarrow> transaction_data_t" where
  "ex_td n m =
     \<lparr>transaction = \<lparr>tx_buffer = \<lparr>buf = n, buf_length = 4\<rparr>,
                      rx_buffer = \<lparr>buf = 0, buf_length = 0\<rparr>,
                      event = m, callback = Some n\<rparr>,
      circular = False\<rparr>"

definition ex_obj :: "bool \<Rightarrow> transaction_data_t \<Rightarrow> I2S" where
  "ex_obj b d =
     \<lparr>dbits = 16, fbits = 16, polarity = 0, protocol = 0, mode = 0, busy = b, hz = 44100,
      current_transaction = d, irq_tx = None, irq_rx = None\<rparr>"

definition ex_driver :: "bool \<Rightarrow> handle option \<Rightarrow> transaction_t list \<Rightarrow> driver" where
  "ex_driver b ow q =
     \<lparr>objs = (\<lambda>_. ex_obj b (ex_td 9 4)), owner = ow, transaction_buffer = q,
      hal = [], minar = []\<rparr>"

definition ex_adder :: "nat \<Rightarrow> bool \<Rightarrow> I2STransferAdder" where
  "ex_adder n ap = \<lparr>td = ex_td n 4, applied = ap, rc = 0, adder_owner = 0\<rparr>"

text \<open>
  Two objects on one unit: object 1 is running a transfer and has queued another, object 0
  has not been used yet.
\<close>

definition ex_shared :: driver where
  "ex_shared =
     \<lparr>objs = (\<lambda>_. ex_obj False (ex_td 9 4))(1 := ex_obj True (ex_td 5 4)),
      owner = Some 1, transaction_buffer = [(1, ex_td 2 4)], hal = [], minar = []\<rparr>"

text \<open>
  A chain of setter calls on one builder, as in \<open>transfer().tx(..).rx(..).callback(..)\<close>:
  each call works on the builder the previous one returned, and a failed assertion ends
  the chain.
\<close>

datatype setter_call =
  Set_tx nat nat
| Set_rx nat nat
| Set_circular bool
| Set_callback event_callback_t event_mask

fun call_setter :: "I2STransferAdder \<Rightarrow> setter_call \<Rightarrow> error + I2STransferAdder" where
  "call_setter a (Set_tx b n) = adder_tx a b n"
| "call_setter a (Set_rx b n) = adder_rx a b n"
| "call_setter a (Set_circular m) = adder_circular a m"
| "call_setter a (Set_callback cb e) = adder_callback a cb e"

fun call_setters :: "I2STransferAdder \<Rightarrow> setter_call list \<Rightarrow> error + I2STransferAdder" where
  "call_setters a [] = Inr a"
| "call_setters a (c # cs) =
     (case call_setter a c of Inl e \<Rightarrow> Inl e | Inr a' \<Rightarrow> call_setters a' cs)"

text \<open>
  Two runs from the state in which no object is busy, nothing is queued and nothing has
  been sent to the HAL. \<open>I2S_EVENT_ALL\<close> is 6, the internal indicator \<open>2 ^ 30\<close>, and
  each transfer ends with the event mask \<open>2 ^ 30 + 4\<close> (a complete event with the
  indicator).

  \<open>ex_noqueue_run\<close>, queue size 0: object 0 submits a transfer on the idle unit, and the
  transfer completes.

  \<open>ex_two_run\<close>, queue size 2: object 0 submits a transfer on the idle unit; object 1
  submits one while the hardware is active; the first completes (interrupt on object 0),
  then the second (interrupt on object 1).
\<close>

definition ex_noqueue_run :: driver where
  "ex_noqueue_run =
     irq_handler_asynch_tx 0 6 1073741824
       (snd (transfer 0 (ex_driver False None []) 0 (ex_adder 1 False) False)) 0 1073741828"

definition ex_two_run :: driver where
  "ex_two_run =
     irq_handler_asynch_tx 2 6 1073741824
       (irq_handler_asynch_tx 2 6 1073741824
          (snd (transfer 2
                  (snd (transfer 2 (ex_driver False None []) 0 (ex_adder 1 False) False))
                  1 ((ex_adder 2 False)\<lparr>adder_owner := 1\<rparr>) True))
          0 1073741828)
       1 1073741828"

section \<open>Basic facts about the state updates\<close>

lemma upd_simps:
  "objs (upd st h f) = (objs st)(h := f (objs st h))"
  "owner (upd st h f) = owner st"
  "transaction_buffer (upd st h f) = transaction_buffer st"
  "hal (upd st h f) = hal st"
  "minar (upd st h f) = minar st"
  by (simp_all add: upd_def)

lemma hal_emit_simps:
  "objs (hal_emit st cs) = objs st"
  "owner (hal_emit st cs) = owner st"
  "transaction_buffer (hal_emit st cs) = transaction_buffer st"
  "hal (hal_emit st cs) = hal st @ cs"
  "minar (hal_emit st cs) = minar st"
  by (simp_all add: hal_emit_def)

lemma aquire_simps:
  "objs (aquire st h) = objs st"
  "owner (aquire st h) = Some h"
  "transaction_buffer (aquire st h) = transaction_buffer st"
  "hal (aquire st h) =
     hal st @ (if owner st = Some h then [] else full_configuration h (objs st h))"
  "minar (aquire st h) = minar st"
  by (simp_all add: aquire_def hal_emit_def full_configuration_def)

lemma start_transfer_simps:
  "objs (start_transfer st h d) =
     (objs st)(h := (objs st h)\<lparr>current_transaction := d,
                 irq_tx := Some Irq_handler_asynch_tx,
                 irq_rx := Some Irq_handler_asynch_rx\<rparr>)"
  "owner (start_transfer st h d) = Some h"
  "transaction_buffer (start_transfer st h d) = transaction_buffer st"
  "hal (start_transfer st h d) =
     hal st @ (if owner st = Some h then [] else full_configuration h (objs st h)) @
     [I2s_master_transfer h (tx_buffer (transaction d)) (rx_buffer (transaction d))
        (circular d) (event (transaction d))]"
  "minar (start_transfer st h d) = minar st"
  by (simp_all add: start_transfer_def hal_emit_simps upd_simps aquire_simps)

lemma full_configuration_busy:
  "full_configuration h (obj\<lparr>busy := b\<rparr>) = full_configuration h obj"
  by (simp add: full_configuration_def)

lemma I2S_busy_same: "busy (r::I2S) = b \<Longrightarrow> r\<lparr>busy := b\<rparr> = r"
  by (cases r) simp

lemma upd_busy_same:
  "busy (objs st h) = b \<Longrightarrow> upd st h (\<lambda>obj. obj\<lparr>busy := b\<rparr>) = st"
  by (simp add: upd_def I2S_busy_same)

lemmas ex_defs = ex_td_def ex_obj_def ex_driver_def ex_adder_def

section \<open>Submission\<close>

text \<open>
  What \<open>transfer\<close> does, by its own test. When the busy flag of the submitting object
  is clear and the hardware reports no active transfer, the transfer is started on the
  hardware after \<open>aquire\<close> (the configuration is written first when another object
  configured the unit last), the descriptor becomes the current transfer, the busy flag is
  set, the queue is untouched and 0 is returned. When the flag is set or the hardware is
  active, no HAL command is issued and the current transfer stays; the descriptor is
  appended to the queue and 0 is returned when the queue has room, and -1 is returned
  with the queue as it was when the queue holds its capacity.
\<close>

lemma transfer_cases:
  "(\<not> busy (objs st h) \<and> \<not> active \<longrightarrow>
      fst (transfer cap st h a active) = 0 \<and>
      hal (snd (transfer cap st h a active)) =
        hal st @ (if owner st = Some h then [] else full_configuration h (objs st h)) @
        [I2s_master_transfer h (tx_buffer (transaction (td a))) (rx_buffer (transaction (td a)))
           (circular (td a)) (event (transaction (td a)))] \<and>
      owner (snd (transfer cap st h a active)) = Some h \<and>
      current_transaction (objs (snd (transfer cap st h a active)) h) = td a \<and>
      busy (objs (snd (transfer cap st h a active)) h) \<and>
      transaction_buffer (snd (transfer cap st h a active)) = transaction_buffer st) \<and>
   ((busy (objs st h) \<or> active) \<and> length (transaction_buffer st) < cap \<longrightarrow>
      fst (transfer cap st h a active) = 0 \<and>
      transaction_buffer (snd (transfer cap st h a active)) =
        transaction_buffer st @ [(h, td a)] \<and>
      hal (snd (transfer cap st h a active)) = hal st \<and>
      owner (snd (transfer cap st h a active)) = owner st \<and>
      current_transaction (objs (snd (transfer cap st h a active)) h) =
        current_transaction (objs st h)) \<and>
   ((busy (objs st h) \<or> active) \<and> cap \<le> length (transaction_buffer st) \<longrightarrow>
      fst (transfer cap st h a active) = - 1 \<and>
      transaction_buffer (snd (transfer cap st h a active)) = transaction_buffer st \<and>
      hal (snd (transfer cap st h a active)) = hal st \<and>
      owner (snd (transfer cap st h a active)) = owner st \<and>
      current_transaction (objs (snd (transfer cap st h a active)) h) =
        current_transaction (objs st h))"
  by (auto simp add: transfer_def queue_transfer_def full_def push_def Let_def
      start_transfer_simps upd_simps full_configuration_busy)

lemma ex_noqueue_run_facts:
  "busy (objs ex_noqueue_run 0)" "transaction_buffer ex_noqueue_run = []"
  "hal ex_noqueue_run =
     [I2s_format 0 16 16 0, I2s_audio_frequency 0 44100, I2s_set_protocol 0 0,
      I2s_set_mode 0 0,
      I2s_master_transfer 0 \<lparr>buf = 1, buf_length = 4\<rparr> \<lparr>buf = 0, buf_length = 0\<rparr> False 4]"
  by (simp_all add: ex_noqueue_run_def irq_handler_asynch_tx_def transfer_def Let_def
      start_transfer_simps upd_simps full_configuration_def ex_defs)

lemma ex_two_run_facts:
  "busy (objs ex_two_run 0)" "\<not> busy (objs ex_two_run 1)"
  "transaction_buffer ex_two_run = []"
  "current_transaction (objs ex_two_run 0) = ex_td 1 4"
  "current_transaction (objs ex_two_run 1) = ex_td 2 4"
  "hal ex_two_run =
     [I2s_format 0 16 16 0, I2s_audio_frequency 0 44100, I2s_set_protocol 0 0,
      I2s_set_mode 0 0,
      I2s_master_transfer 0 \<lparr>buf = 1, buf_length = 4\<rparr> \<lparr>buf = 0, buf_length = 0\<rparr> False 4,
      I2s_format 1 16 16 0, I2s_audio_frequency 1 44100, I2s_set_protocol 1 0,
      I2s_set_mode 1 0,
      I2s_master_transfer 1 \<lparr>buf = 2, buf_length = 4\<rparr> \<lparr>buf = 0, buf_length = 0\<rparr> False 4]"
  by (simp_all add: ex_two_run_def irq_handler_asynch_tx_def transfer_def queue_transfer_def
      full_def push_def dequeue_transaction_def start_transaction_def Let_def
      start_transfer_simps upd_simps full_configuration_def ex_defs)

text \<open>
  Claim C1 says that a submission on an idle unit starts the transfer on the hardware at
  once, stores the descriptor as the current transfer and returns 0. The code decides by
  the busy flag of the submitting object, and that flag can stay set on an idle unit.

  With queue size 0 the flag is never cleared (\<open>dequeue_transaction\<close> is compiled out):
  after \<open>ex_noqueue_run\<close> every transfer started has completed, nothing is queued and
  the hardware is not active, yet the busy flag of object 0 is set and its next
  submission issues no HAL command and returns -1.

  With a queue, \<open>dequeue_transaction\<close> writes the flag of the object whose interrupt
  runs, not of the object whose transfer it starts: after \<open>ex_two_run\<close> both transfers
  have completed, the queue is empty and the flag of object 1 is clear, but the flag of
  object 0 is still set; its next submission, with the hardware not active, is put into
  the queue, no HAL command is issued and the current transfer of object 0 remains the
  completed one.
\<close>

theorem transfer_stale_busy_flag:
  "busy (objs ex_noqueue_run 0) \<and>
   transaction_buffer ex_noqueue_run = [] \<and>
   fst (transfer 0 ex_noqueue_run 0 (ex_adder 3 False) False) = - 1 \<and>
   hal (snd (transfer 0 ex_noqueue_run 0 (ex_adder 3 False) False)) = hal ex_noqueue_run \<and>
   busy (objs ex_two_run 0) \<and>
   \<not> busy (objs ex_two_run 1) \<and>
   transaction_buffer ex_two_run = [] \<and>
   fst (transfer 2 ex_two_run 0 (ex_adder 3 False) False) = 0 \<and>
   hal (snd (transfer 2 ex_two_run 0 (ex_adder 3 False) False)) = hal ex_two_run \<and>
   transaction_buffer (snd (transfer 2 ex_two_run 0 (ex_adder 3 False) False)) =
     [(0, ex_td 3 4)] \<and>
   current_transaction (objs (snd (transfer 2 ex_two_run 0 (ex_adder 3 False) False)) 0) =
     ex_td 1 4"
proof -
  have a: "fst (transfer 0 ex_noqueue_run 0 (ex_adder 3 False) False) = - 1"
    "hal (snd (transfer 0 ex_noqueue_run 0 (ex_adder 3 False) False)) = hal ex_noqueue_run"
    by (simp_all add: transfer_def queue_transfer_def Let_def upd_simps ex_noqueue_run_facts)
  have b: "fst (transfer 2 ex_two_run 0 (ex_adder 3 False) False) = 0"
    "hal (snd (transfer 2 ex_two_run 0 (ex_adder 3 False) False)) = hal ex_two_run"
    "transaction_buffer (snd (transfer 2 ex_two_run 0 (ex_adder 3 False) False)) =
       [(0, ex_td 3 4)]"
    "current_transaction (objs (snd (transfer 2 ex_two_run 0 (ex_adder 3 False) False)) 0) =
       ex_td 1 4"
    by (simp_all add: transfer_def queue_transfer_def full_def push_def Let_def upd_simps
        ex_two_run_facts ex_adder_def)
  from a b ex_noqueue_run_facts(1,2) ex_two_run_facts(1,2,3) show ?thesis
    by (simp only: simp_thms)
qed

section \<open>Rejected submissions\<close>

lemma transfer_rejected:
  "fst (transfer cap st h a active) = - 1 \<Longrightarrow>
     snd (transfer cap st h a active) = upd st h (\<lambda>obj. obj\<lparr>busy := True\<rparr>)"
  by (auto simp add: transfer_def queue_transfer_def Let_def split: if_splits)

lemma I2S_busy_restore: "(r::I2S)\<lparr>busy := b, busy := busy r\<rparr> = r"
  by (cases r) simp

text \<open>
  Claim C2 says that a submission rejected with -1 leaves the whole session state as it
  was. It does not: \<open>transfer\<close> sets the busy flag of the submitting object before it
  knows whether the queue has room. In \<open>ex_shared\<close> object 0 is not busy, the hardware
  is active and the queue of capacity 1 is full; the submission of object 0 is rejected
  and its busy flag has changed.
\<close>

theorem rejected_transfer_counterexample:
  "fst (transfer 1 ex_shared 0 (ex_adder 1 False) True) = - 1 \<and>
   \<not> busy (objs ex_shared 0) \<and>
   busy (objs (snd (transfer 1 ex_shared 0 (ex_adder 1 False) True)) 0)"
  by (simp add: transfer_def queue_transfer_def full_def Let_def upd_simps ex_shared_def ex_defs)

text \<open>
  Claim C2, amended. A submission rejected with -1 leaves the queue, the configuration
  owner, every object's current transfer, the HAL trace and the posted callbacks as they
  were; nothing but the busy flag of the submitting object can differ (putting the old
  flag back gives the old state), and when that flag was already set the state after the
  rejected submission is the state before it.
\<close>

theorem rejected_transfer_frame:
  assumes "fst (transfer cap st h a active) = - 1"
  shows "upd (snd (transfer cap st h a active)) h (\<lambda>obj. obj\<lparr>busy := busy (objs st h)\<rparr>) = st \<and>
         transaction_buffer (snd (transfer cap st h a active)) = transaction_buffer st \<and>
         owner (snd (transfer cap st h a active)) = owner st \<and>
         hal (snd (transfer cap st h a active)) = hal st \<and>
         minar (snd (transfer cap st h a active)) = minar st \<and>
         current_transaction (objs (snd (transfer cap st h a active)) h') =
           current_transaction (objs st h') \<and>
         (busy (objs st h) \<longrightarrow> snd (transfer cap st h a active) = st)"
proof -
  note r = transfer_rejected [OF assms]
  have "upd (snd (transfer cap st h a active)) h (\<lambda>obj. obj\<lparr>busy := busy (objs st h)\<rparr>) = st"
    by (simp add: r upd_def I2S_busy_restore)
  moreover have "busy (objs st h) \<longrightarrow> snd (transfer cap st h a active) = st"
    by (simp add: r upd_busy_same)
  ultimately show ?thesis
    by (simp add: r upd_simps)
qed

theorem rejected_transfer_frame_witness:
  "fst (transfer 1 ex_shared 1 (ex_adder 1 False) False) = - 1 \<and>
   snd (transfer 1 ex_shared 1 (ex_adder 1 False) False) = ex_shared"
proof -
  have r: "fst (transfer 1 ex_shared 1 (ex_adder 1 False) False) = - 1"
    by (simp add: transfer_def queue_transfer_def full_def Let_def upd_simps ex_shared_def ex_defs)
  have b: "busy (objs ex_shared 1)"
    by (simp add: ex_shared_def ex_defs)
  from r b rejected_transfer_frame [OF r] show ?thesis by simp
qed

section \<open>Interrupt completion\<close>

lemma dequeue_transaction_simps:
  "transaction_buffer (dequeue_transaction st h) = tl (transaction_buffer st)"
  "minar (dequeue_transaction st h) = minar st"
  by (cases "transaction_buffer st";
      simp add: dequeue_transaction_def start_transaction_def start_transfer_simps upd_simps)+

lemma dequeue_transaction_minar:
  "dequeue_transaction (st\<lparr>minar := m\<rparr>) h = (dequeue_transaction st h)\<lparr>minar := m\<rparr>"
  by (cases "transaction_buffer st")
     (simp_all add: dequeue_transaction_def start_transaction_def start_transfer_def
        upd_def hal_emit_def aquire_def)

lemma irq_handler_asynch_tx_rx:
  "irq_handler_asynch_tx cap ev_all ev_internal st h ev =
   irq_handler_asynch_rx cap ev_all ev_internal st h ev"
  by (simp add: irq_handler_asynch_tx_def irq_handler_asynch_rx_def)

lemma irq_handler_asynch_rx_minar:
  "minar (irq_handler_asynch_rx cap ev_all ev_internal st h ev) =
     minar st @
     (case callback (transaction (current_transaction (objs st h))) of
        None \<Rightarrow> []
      | Some cb \<Rightarrow>
          if ev AND ev_all \<noteq> 0
          then [(cb, tx_buffer (transaction (current_transaction (objs st h))),
                 rx_buffer (transaction (current_transaction (objs st h))), ev AND ev_all)]
          else [])"
  by (simp add: irq_handler_asynch_rx_def Let_def dequeue_transaction_simps split: option.split)

lemma driver_minar_same: "(st::driver)\<lparr>minar := minar st\<rparr> = st"
  by (cases st) simp

lemma irq_handler_asynch_rx_cases:
  "irq_handler_asynch_rx cap ev_all ev_internal st h ev =
     (if cap \<noteq> 0 \<and> ev AND (ev_all OR ev_internal) \<noteq> 0
      then dequeue_transaction
             (st\<lparr>minar := minar (irq_handler_asynch_rx cap ev_all ev_internal st h ev)\<rparr>) h
      else st\<lparr>minar := minar (irq_handler_asynch_rx cap ev_all ev_internal st h ev)\<rparr>)"
  unfolding irq_handler_asynch_rx_minar
  by (simp add: irq_handler_asynch_rx_def Let_def driver_minar_same split: option.split)

text \<open>
  Claim C3, amended. On either channel the handler performs the dequeue-and-start-next
  transition exactly when the queue is compiled in and the event mask returned by the
  hardware has a bit in common with \<open>I2S_EVENT_ALL\<close> or with
  \<open>I2S_EVENT_INTERNAL_TRANSFER_COMPLETE\<close>: then the handler's result is
  \<open>dequeue_transaction\<close> applied to the state after the callback step and the oldest
  queue entry is gone; otherwise the queue, the objects, the configuration owner and the
  HAL trace are as before, only the posted callbacks may have grown. The transmit
  handler does what the receive handler does.
\<close>

theorem irq_handler_dequeue_condition:
  "irq_handler_asynch_tx cap ev_all ev_internal st h ev =
     irq_handler_asynch_rx cap ev_all ev_internal st h ev \<and>
   (cap \<noteq> 0 \<and> ev AND (ev_all OR ev_internal) \<noteq> 0 \<longrightarrow>
      irq_handler_asynch_rx cap ev_all ev_internal st h ev =
        dequeue_transaction
          (st\<lparr>minar := minar (irq_handler_asynch_rx cap ev_all ev_internal st h ev)\<rparr>) h \<and>
      transaction_buffer (irq_handler_asynch_rx cap ev_all ev_internal st h ev) =
        tl (transaction_buffer st)) \<and>
   (\<not> (cap \<noteq> 0 \<and> ev AND (ev_all OR ev_internal) \<noteq> 0) \<longrightarrow>
      irq_handler_asynch_rx cap ev_all ev_internal st h ev =
        st\<lparr>minar := minar (irq_handler_asynch_rx cap ev_all ev_internal st h ev)\<rparr> \<and>
      transaction_buffer (irq_handler_asynch_rx cap ev_all ev_internal st h ev) =
        transaction_buffer st \<and>
      objs (irq_handler_asynch_rx cap ev_all ev_internal st h ev) = objs st \<and>
      owner (irq_handler_asynch_rx cap ev_all ev_internal st h ev) = owner st \<and>
      hal (irq_handler_asynch_rx cap ev_all ev_internal st h ev) = hal st)"
proof (intro conjI impI)
  show "irq_handler_asynch_tx cap ev_all ev_internal st h ev =
     irq_handler_asynch_rx cap ev_all ev_internal st h ev"
    by (rule irq_handler_asynch_tx_rx)
next
  assume g: "cap \<noteq> 0 \<and> ev AND (ev_all OR ev_internal) \<noteq> 0"
  show "irq_handler_asynch_rx cap ev_all ev_internal st h ev =
        dequeue_transaction
          (st\<lparr>minar := minar (irq_handler_asynch_rx cap ev_all ev_internal st h ev)\<rparr>) h"
    using g irq_handler_asynch_rx_cases [of cap ev_all ev_internal st h ev] by simp
  then have "transaction_buffer (irq_handler_asynch_rx cap ev_all ev_internal st h ev) =
      transaction_buffer (dequeue_transaction
          (st\<lparr>minar := minar (irq_handler_asynch_rx cap ev_all ev_internal st h ev)\<rparr>) h)"
    by simp
  then show "transaction_buffer (irq_handler_asynch_rx cap ev_all ev_internal st h ev) =
        tl (transaction_buffer st)"
    by (simp add: dequeue_transaction_simps)
next
  assume g: "\<not> (cap \<noteq> 0 \<and> ev AND (ev_all OR ev_internal) \<noteq> 0)"
  have e: "irq_handler_asynch_rx cap ev_all ev_internal st h ev =
        st\<lparr>minar := minar (irq_handler_asynch_rx cap ev_all ev_internal st h ev)\<rparr>"
    using g irq_handler_asynch_rx_cases [of cap ev_all ev_internal st h ev] by auto
  show "irq_handler_asynch_rx cap ev_all ev_internal st h ev =
        st\<lparr>minar := minar (irq_handler_asynch_rx cap ev_all ev_internal st h ev)\<rparr>"
    by (rule e)
  show "transaction_buffer (irq_handler_asynch_rx cap ev_all ev_internal st h ev) =
        transaction_buffer st"
    by (subst e) simp
  show "objs (irq_handler_asynch_rx cap ev_all ev_internal st h ev) = objs st"
    by (subst e) simp
  show "owner (irq_handler_asynch_rx cap ev_all ev_internal st h ev) = owner st"
    by (subst e) simp
  show "hal (irq_handler_asynch_rx cap ev_all ev_internal st h ev) = hal st"
    by (subst e) simp
qed

theorem irq_handler_dequeue_condition_witness:
  "transaction_buffer
     (irq_handler_asynch_rx 1 6 1073741824 (ex_driver True (Some 0) [(0, ex_td 2 4)]) 0
        1073741824) = [] \<and>
   transaction_buffer
     (irq_handler_asynch_rx 1 6 1073741824 (ex_driver True (Some 0) [(0, ex_td 2 4)]) 0 8) =
     [(0, ex_td 2 4)]"
proof -
  have yes: "(1::nat) \<noteq> 0 \<and> (1073741824 :: event_mask) AND (6 OR 1073741824) \<noteq> 0"
    by simp
  have no: "\<not> ((1::nat) \<noteq> 0 \<and> (8 :: event_mask) AND (6 OR 1073741824) \<noteq> 0)"
    by simp
  have q: "transaction_buffer (ex_driver True (Some 0) [(0, ex_td 2 4)]) = [(0, ex_td 2 4)]"
    by (simp add: ex_driver_def)
  from yes no q
    irq_handler_dequeue_condition [of 1 6 1073741824
      "ex_driver True (Some 0) [(0, ex_td 2 4)]" 0 1073741824]
    irq_handler_dequeue_condition [of 1 6 1073741824
      "ex_driver True (Some 0) [(0, ex_td 2 4)]" 0 8]
  show ?thesis by simp
qed

text \<open>
  Claim C3 says that the queue advances if and only if the event mask includes the
  transfer-fully-complete indicator, and that a mask of plain events only does not
  advance it. The guard of the handlers also accepts every bit of \<open>I2S_EVENT_ALL\<close>.
  With \<open>I2S_EVENT_ALL = 6\<close> and the internal indicator \<open>2 ^ 30\<close>, the event mask 2
  does not contain the indicator, and the handler dequeues the queued transfer and
  starts it.
\<close>

theorem irq_handler_dequeue_counterexample:
  "(2 :: event_mask) AND 1073741824 = 0 \<and>
   transaction_buffer (ex_driver True (Some 0) [(0, ex_td 2 4)]) = [(0, ex_td 2 4)] \<and>
   transaction_buffer
     (irq_handler_asynch_rx 1 6 1073741824 (ex_driver True (Some 0) [(0, ex_td 2 4)]) 0 2) = [] \<and>
   current_transaction
     (objs (irq_handler_asynch_rx 1 6 1073741824 (ex_driver True (Some 0) [(0, ex_td 2 4)]) 0 2) 0) =
     ex_td 2 4"
  by (simp add: irq_handler_asynch_rx_def dequeue_transaction_def start_transaction_def
      start_transfer_simps upd_simps Let_def ex_defs)



section \<open>Commit of the builder\<close>

lemma transfer_td_only:
  "td a = td b \<Longrightarrow> transfer cap st h a active = transfer cap st h b active"
  by (simp add: transfer_def Let_def)

lemma adder_apply_first:
  "\<not> applied a \<Longrightarrow>
     adder_apply cap st a active =
       (fst (transfer cap st (adder_owner a) a active),
        snd (transfer cap st (adder_owner a) a active),
        a\<lparr>applied := True, rc := fst (transfer cap st (adder_owner a) a active)\<rparr>)"
  by (simp add: adder_apply_def Let_def
      transfer_td_only [of "a\<lparr>applied := True\<rparr>" a])

lemma adder_apply_again:
  "applied a \<Longrightarrow> adder_apply cap st a active = (rc a, st, a)"
  by (simp add: adder_apply_def)

lemma adder_apply_applied:
  "applied (snd (snd (adder_apply cap st a active)))"
  by (simp add: adder_apply_def Let_def)

lemma adder_apply_rc:
  "rc (snd (snd (adder_apply cap st a active))) = fst (adder_apply cap st a active)"
  by (simp add: adder_apply_def Let_def)

lemma adder_apply_observed:
  "\<not> applied c \<Longrightarrow>
     fst (adder_apply cap st c active) = fst (transfer cap st (adder_owner c) c active) \<and>
     fst (snd (adder_apply cap st c active)) = snd (transfer cap st (adder_owner c) c active)"
  by (simp add: adder_apply_first)

lemma adder_apply_submits:
  assumes "\<not> applied c"
  shows "(\<not> busy (objs st (adder_owner c)) \<and> \<not> active \<longrightarrow>
      fst (adder_apply cap st c active) = 0 \<and>
      hal (fst (snd (adder_apply cap st c active))) =
        hal st @
        (if owner st = Some (adder_owner c) then []
         else full_configuration (adder_owner c) (objs st (adder_owner c))) @
        [I2s_master_transfer (adder_owner c) (tx_buffer (transaction (td c)))
           (rx_buffer (transaction (td c))) (circular (td c)) (event (transaction (td c)))] \<and>
      current_transaction (objs (fst (snd (adder_apply cap st c active))) (adder_owner c)) =
        td c \<and>
      transaction_buffer (fst (snd (adder_apply cap st c active))) = transaction_buffer st) \<and>
   ((busy (objs st (adder_owner c)) \<or> active) \<and> length (transaction_buffer st) < cap \<longrightarrow>
      fst (adder_apply cap st c active) = 0 \<and>
      transaction_buffer (fst (snd (adder_apply cap st c active))) =
        transaction_buffer st @ [(adder_owner c, td c)] \<and>
      hal (fst (snd (adder_apply cap st c active))) = hal st) \<and>
   ((busy (objs st (adder_owner c)) \<or> active) \<and> cap \<le> length (transaction_buffer st) \<longrightarrow>
      fst (adder_apply cap st c active) = - 1 \<and>
      transaction_buffer (fst (snd (adder_apply cap st c active))) = transaction_buffer st \<and>
      hal (fst (snd (adder_apply cap st c active))) = hal st)"
  using transfer_cases [of st "adder_owner c" active cap c]
  by (simp only: adder_apply_observed [OF assms]) blast

text \<open>
  Claim C5. The first \<open>apply\<close> of a builder that has not been applied performs the
  submission, one call of \<open>transfer\<close> on the owner, and records its code in the
  builder; the destructor of such a builder does the same submission. What the one
  submission does is visible in the driver state: on a clear busy flag and inactive
  hardware the descriptor is started on the hardware and becomes the current transfer;
  otherwise it is appended to the queue when there is room, and the code is -1 with queue
  and HAL trace unchanged when there is none. After any \<open>apply\<close> the builder is marked
  applied, and from then on every \<open>apply\<close> on it, in whatever driver state and whatever
  the hardware reports, returns the code of the first call and leaves the driver state and
  the builder as they are; the destructor then leaves the driver state as it is.
\<close>

theorem apply_idempotent:
  "(\<not> applied a \<longrightarrow>
      adder_apply cap st a active =
        (fst (transfer cap st (adder_owner a) a active),
         snd (transfer cap st (adder_owner a) a active),
         a\<lparr>applied := True, rc := fst (transfer cap st (adder_owner a) a active)\<rparr>) \<and>
      adder_destroy cap st a active = snd (transfer cap st (adder_owner a) a active) \<and>
      (\<not> busy (objs st (adder_owner a)) \<and> \<not> active \<longrightarrow>
         fst (adder_apply cap st a active) = 0 \<and>
         hal (fst (snd (adder_apply cap st a active))) =
           hal st @
           (if owner st = Some (adder_owner a) then []
            else full_configuration (adder_owner a) (objs st (adder_owner a))) @
           [I2s_master_transfer (adder_owner a) (tx_buffer (transaction (td a)))
              (rx_buffer (transaction (td a))) (circular (td a)) (event (transaction (td a)))] \<and>
         current_transaction (objs (fst (snd (adder_apply cap st a active))) (adder_owner a)) =
           td a \<and>
         transaction_buffer (fst (snd (adder_apply cap st a active))) = transaction_buffer st) \<and>
      ((busy (objs st (adder_owner a)) \<or> active) \<and> length (transaction_buffer st) < cap \<longrightarrow>
         fst (adder_apply cap st a active) = 0 \<and>
         transaction_buffer (fst (snd (adder_apply cap st a active))) =
           transaction_buffer st @ [(adder_owner a, td a)] \<and>
         hal (fst (snd (adder_apply cap st a active))) = hal st) \<and>
      ((busy (objs st (adder_owner a)) \<or> active) \<and> cap \<le> length (transaction_buffer st) \<longrightarrow>
         fst (adder_apply cap st a active) = - 1 \<and>
         transaction_buffer (fst (snd (adder_apply cap st a active))) = transaction_buffer st \<and>
         hal (fst (snd (adder_apply cap st a active))) = hal st)) \<and>
   applied (snd (snd (adder_apply cap st a active))) \<and>
   adder_apply cap' st' (snd (snd (adder_apply cap st a active))) active' =
     (fst (adder_apply cap st a active), st', snd (snd (adder_apply cap st a active))) \<and>
   adder_destroy cap' st' (snd (snd (adder_apply cap st a active))) active' = st'"
proof -
  have later: "adder_apply cap' st' (snd (snd (adder_apply cap st a active))) active' =
     (fst (adder_apply cap st a active), st', snd (snd (adder_apply cap st a active)))"
    by (simp add: adder_apply_again [OF adder_apply_applied] adder_apply_rc)
  have destroy: "adder_destroy cap' st' (snd (snd (adder_apply cap st a active))) active' = st'"
    by (simp add: adder_destroy_def later)
  have first: "\<not> applied a \<Longrightarrow>
      adder_apply cap st a active =
        (fst (transfer cap st (adder_owner a) a active),
         snd (transfer cap st (adder_owner a) a active),
         a\<lparr>applied := True, rc := fst (transfer cap st (adder_owner a) a active)\<rparr>) \<and>
      adder_destroy cap st a active = snd (transfer cap st (adder_owner a) a active)"
    by (simp add: adder_destroy_def adder_apply_first)
  show ?thesis
    using later destroy first adder_apply_submits [of a st active cap]
      adder_apply_applied [of cap st a active]
    by blast
qed

theorem apply_idempotent_witness:
  "fst (adder_apply 2 (ex_driver False None []) (ex_adder 1 False) False) = 0 \<and>
   hal (fst (snd (adder_apply 2 (ex_driver False None []) (ex_adder 1 False) False))) =
     [I2s_format 0 16 16 0, I2s_audio_frequency 0 44100, I2s_set_protocol 0 0,
      I2s_set_mode 0 0,
      I2s_master_transfer 0 \<lparr>buf = 1, buf_length = 4\<rparr> \<lparr>buf = 0, buf_length = 0\<rparr> False 4] \<and>
   adder_destroy 2 (ex_driver True None [])
     (snd (snd (adder_apply 2 (ex_driver False None []) (ex_adder 1 False) False))) True =
     ex_driver True None [] \<and>
   fst (adder_apply 2 (ex_driver True None [(0, ex_td 2 4), (0, ex_td 3 4)])
          (ex_adder 1 False) False) = - 1 \<and>
   fst (adder_apply 2 (ex_driver True None [])
          (snd (snd (adder_apply 2 (ex_driver True None [(0, ex_td 2 4), (0, ex_td 3 4)])
                       (ex_adder 1 False) False))) False) = - 1 \<and>
   fst (snd (adder_apply 2 (ex_driver True None [])
          (snd (snd (adder_apply 2 (ex_driver True None [(0, ex_td 2 4), (0, ex_td 3 4)])
                       (ex_adder 1 False) False))) False)) = ex_driver True None []"
proof -
  let ?idle = "ex_driver False None []"
  let ?full = "ex_driver True None [(0, ex_td 2 4), (0, ex_td 3 4)]"
  let ?room = "ex_driver True None []"
  let ?a = "ex_adder 1 False"
  note i = apply_idempotent [of ?a 2 ?idle False 2 ?room True]
  note f = apply_idempotent [of ?a 2 ?full False 2 ?room False]
  have n: "\<not> applied ?a"
    by (simp add: ex_adder_def)
  have hi: "\<not> busy (objs ?idle (adder_owner ?a)) \<and> \<not> False"
    by (simp add: ex_defs)
  have hf: "(busy (objs ?full (adder_owner ?a)) \<or> False) \<and>
      2 \<le> length (transaction_buffer ?full)"
    by (simp add: ex_defs)
  from i n hi have i1: "fst (adder_apply 2 ?idle ?a False) = 0"
    by blast
  from i n hi have "hal (fst (snd (adder_apply 2 ?idle ?a False))) =
      hal ?idle @
      (if owner ?idle = Some (adder_owner ?a) then []
       else full_configuration (adder_owner ?a) (objs ?idle (adder_owner ?a))) @
      [I2s_master_transfer (adder_owner ?a) (tx_buffer (transaction (td ?a)))
         (rx_buffer (transaction (td ?a))) (circular (td ?a)) (event (transaction (td ?a)))]"
    by blast
  then have i2: "hal (fst (snd (adder_apply 2 ?idle ?a False))) =
     [I2s_format 0 16 16 0, I2s_audio_frequency 0 44100, I2s_set_protocol 0 0,
      I2s_set_mode 0 0,
      I2s_master_transfer 0 \<lparr>buf = 1, buf_length = 4\<rparr> \<lparr>buf = 0, buf_length = 0\<rparr> False 4]"
    by (simp add: ex_defs full_configuration_def)
  from i have i3: "adder_destroy 2 ?room (snd (snd (adder_apply 2 ?idle ?a False))) True = ?room"
    by blast
  from f n hf have f1: "fst (adder_apply 2 ?full ?a False) = - 1"
    by blast
  from f have f2: "adder_apply 2 ?room (snd (snd (adder_apply 2 ?full ?a False))) False =
      (fst (adder_apply 2 ?full ?a False), ?room, snd (snd (adder_apply 2 ?full ?a False)))"
    by blast
  have f3: "fst (adder_apply 2 ?room (snd (snd (adder_apply 2 ?full ?a False))) False) = - 1"
    by (simp only: f2 fst_conv f1)
  have f4: "fst (snd (adder_apply 2 ?room (snd (snd (adder_apply 2 ?full ?a False))) False)) =
      ?room"
    by (simp only: f2 fst_conv snd_conv)
  from i1 i2 i3 f1 f3 f4 show ?thesis
    by (simp only: simp_thms)
qed

section \<open>Abort\<close>






section \<open>The configuration cache\<close>

lemma aquire_owner_same: "owner st = Some h \<Longrightarrow> aquire st h = st"
  by (simp add: aquire_def)

lemma setter_aquire:
  "aquire ((upd st h f)\<lparr>owner := None\<rparr>) h =
     (hal_emit (upd st h f) (full_configuration h (f (objs st h))))\<lparr>owner := Some h\<rparr>"
  by (simp add: aquire_def hal_emit_def upd_def full_configuration_def)

lemma setter_simps:
  "owner (aquire ((upd st h f)\<lparr>owner := None\<rparr>) h) = Some h"
  "objs (aquire ((upd st h f)\<lparr>owner := None\<rparr>) h) = (objs st)(h := f (objs st h))"
  "hal (aquire ((upd st h f)\<lparr>owner := None\<rparr>) h) =
     hal st @ full_configuration h (f (objs st h))"
  "transaction_buffer (aquire ((upd st h f)\<lparr>owner := None\<rparr>) h) = transaction_buffer st"
  by (simp_all add: setter_aquire hal_emit_simps upd_simps)

text \<open>
  Claim C7, amended. Every configuration setter (\<open>format\<close>, \<open>audio_frequency\<close>,
  \<open>set_protocol\<close>, \<open>set_mode\<close>) clears the owner and at once calls \<open>aquire\<close> itself:
  when it returns, the full configuration of the object, with the new value, has been
  written to the unit (whoever owned it before, the object itself included) and the
  object is the owner. So the next \<open>aquire\<close> by the same object writes nothing, and the
  next \<open>aquire\<close> by any other object writes that object's full configuration.
\<close>

theorem mutator_reapplies_configuration:
  "owner (format st h d f p) = Some h \<and>
   owner (audio_frequency st h z) = Some h \<and>
   owner (set_protocol st h pr) = Some h \<and>
   owner (set_mode st h m) = Some h \<and>
   hal (format st h d f p) =
     hal st @ [I2s_format h d f p, I2s_audio_frequency h (hz (objs st h)),
               I2s_set_protocol h (protocol (objs st h)), I2s_set_mode h (mode (objs st h))] \<and>
   hal (audio_frequency st h z) =
     hal st @ [I2s_format h (dbits (objs st h)) (fbits (objs st h)) (polarity (objs st h)),
               I2s_audio_frequency h z,
               I2s_set_protocol h (protocol (objs st h)), I2s_set_mode h (mode (objs st h))] \<and>
   hal (set_protocol st h pr) =
     hal st @ [I2s_format h (dbits (objs st h)) (fbits (objs st h)) (polarity (objs st h)),
               I2s_audio_frequency h (hz (objs st h)),
               I2s_set_protocol h pr, I2s_set_mode h (mode (objs st h))] \<and>
   hal (set_mode st h m) =
     hal st @ [I2s_format h (dbits (objs st h)) (fbits (objs st h)) (polarity (objs st h)),
               I2s_audio_frequency h (hz (objs st h)),
               I2s_set_protocol h (protocol (objs st h)), I2s_set_mode h m] \<and>
   aquire (format st h d f p) h = format st h d f p \<and>
   aquire (audio_frequency st h z) h = audio_frequency st h z \<and>
   aquire (set_protocol st h pr) h = set_protocol st h pr \<and>
   aquire (set_mode st h m) h = set_mode st h m \<and>
   hal (aquire (format st h d f p) h') =
     hal (format st h d f p) @ (if h' = h then [] else full_configuration h' (objs st h')) \<and>
   hal (aquire (audio_frequency st h z) h') =
     hal (audio_frequency st h z) @ (if h' = h then [] else full_configuration h' (objs st h')) \<and>
   hal (aquire (set_protocol st h pr) h') =
     hal (set_protocol st h pr) @ (if h' = h then [] else full_configuration h' (objs st h')) \<and>
   hal (aquire (set_mode st h m) h') =
     hal (set_mode st h m) @ (if h' = h then [] else full_configuration h' (objs st h'))"
proof -
  have o: "owner (format st h d f p) = Some h" "owner (audio_frequency st h z) = Some h"
    "owner (set_protocol st h pr) = Some h" "owner (set_mode st h m) = Some h"
    by (simp_all add: format_def audio_frequency_def set_protocol_def set_mode_def setter_simps)
  have t: "hal (format st h d f p) =
     hal st @ [I2s_format h d f p, I2s_audio_frequency h (hz (objs st h)),
               I2s_set_protocol h (protocol (objs st h)), I2s_set_mode h (mode (objs st h))]"
    "hal (audio_frequency st h z) =
     hal st @ [I2s_format h (dbits (objs st h)) (fbits (objs st h)) (polarity (objs st h)),
               I2s_audio_frequency h z,
               I2s_set_protocol h (protocol (objs st h)), I2s_set_mode h (mode (objs st h))]"
    "hal (set_protocol st h pr) =
     hal st @ [I2s_format h (dbits (objs st h)) (fbits (objs st h)) (polarity (objs st h)),
               I2s_audio_frequency h (hz (objs st h)),
               I2s_set_protocol h pr, I2s_set_mode h (mode (objs st h))]"
    "hal (set_mode st h m) =
     hal st @ [I2s_format h (dbits (objs st h)) (fbits (objs st h)) (polarity (objs st h)),
               I2s_audio_frequency h (hz (objs st h)),
               I2s_set_protocol h (protocol (objs st h)), I2s_set_mode h m]"
    by (simp_all add: format_def audio_frequency_def set_protocol_def set_mode_def setter_simps
        full_configuration_def)
  have s: "aquire (format st h d f p) h = format st h d f p"
    "aquire (audio_frequency st h z) h = audio_frequency st h z"
    "aquire (set_protocol st h pr) h = set_protocol st h pr"
    "aquire (set_mode st h m) h = set_mode st h m"
    by (simp_all add: aquire_owner_same o)
  have n: "hal (aquire (format st h d f p) h') =
     hal (format st h d f p) @ (if h' = h then [] else full_configuration h' (objs st h'))"
    "hal (aquire (audio_frequency st h z) h') =
     hal (audio_frequency st h z) @ (if h' = h then [] else full_configuration h' (objs st h'))"
    "hal (aquire (set_protocol st h pr) h') =
     hal (set_protocol st h pr) @ (if h' = h then [] else full_configuration h' (objs st h'))"
    "hal (aquire (set_mode st h m) h') =
     hal (set_mode st h m) @ (if h' = h then [] else full_configuration h' (objs st h'))"
    by (simp_all add: aquire_simps o)
      (simp_all add: format_def audio_frequency_def set_protocol_def set_mode_def setter_simps)
  from o t s n show ?thesis by (simp only: simp_thms)
qed

text \<open>
  Claim C7 says that after a setter the owner is none and the next \<open>aquire\<close> by any
  object, the previous owner included, writes the configuration again. Object 0 owns the
  unit and calls \<open>format\<close>: afterwards the owner is not none, and a following \<open>aquire\<close>
  by object 0 issues no HAL command.
\<close>

theorem mutator_owner_counterexample:
  "owner (ex_driver False (Some 0) []) = Some 0 \<and>
   owner (format (ex_driver False (Some 0) []) 0 24 32 0) \<noteq> None \<and>
   hal (aquire (format (ex_driver False (Some 0) []) 0 24 32 0) 0) =
     hal (format (ex_driver False (Some 0) []) 0 24 32 0)"
  by (simp add: format_def setter_simps aquire_simps ex_driver_def)

section \<open>Setters of the builder\<close>

lemma error_only: "(e::error) = AssertionFailed"
  by (cases e) simp

lemma call_setters_append:
  "call_setters a (xs @ ys) =
     (case call_setters a xs of Inl e \<Rightarrow> Inl e | Inr a' \<Rightarrow> call_setters a' ys)"
  by (induction xs arbitrary: a) (auto split: sum.splits)

lemma call_setter_keeps_tx:
  "call_setter a c = Inr a' \<Longrightarrow> buf_length (tx_buffer (transaction (td a))) \<noteq> 0 \<Longrightarrow>
     buf_length (tx_buffer (transaction (td a'))) \<noteq> 0"
  by (cases c)
     (auto simp add: adder_tx_def adder_rx_def adder_circular_def adder_callback_def
        split: if_splits)

lemma call_setter_keeps_rx:
  "call_setter a c = Inr a' \<Longrightarrow> buf_length (rx_buffer (transaction (td a))) \<noteq> 0 \<Longrightarrow>
     buf_length (rx_buffer (transaction (td a'))) \<noteq> 0"
  by (cases c)
     (auto simp add: adder_tx_def adder_rx_def adder_circular_def adder_callback_def
        split: if_splits)

lemma call_setter_keeps_callback:
  "call_setter a c = Inr a' \<Longrightarrow> callback (transaction (td a)) \<noteq> None \<Longrightarrow>
     callback (transaction (td a')) \<noteq> None"
  by (cases c)
     (auto simp add: adder_tx_def adder_rx_def adder_circular_def adder_callback_def
        split: if_splits)

lemma call_setters_keeps_tx:
  "call_setters a cs = Inr a' \<Longrightarrow> buf_length (tx_buffer (transaction (td a))) \<noteq> 0 \<Longrightarrow>
     buf_length (tx_buffer (transaction (td a'))) \<noteq> 0"
proof (induction cs arbitrary: a)
  case Nil
  then show ?case by simp
next
  case (Cons c cs)
  then show ?case
    by (auto split: sum.splits dest: call_setter_keeps_tx)
qed

lemma call_setters_keeps_rx:
  "call_setters a cs = Inr a' \<Longrightarrow> buf_length (rx_buffer (transaction (td a))) \<noteq> 0 \<Longrightarrow>
     buf_length (rx_buffer (transaction (td a'))) \<noteq> 0"
proof (induction cs arbitrary: a)
  case Nil
  then show ?case by simp
next
  case (Cons c cs)
  then show ?case
    by (auto split: sum.splits dest: call_setter_keeps_rx)
qed

lemma call_setters_keeps_callback:
  "call_setters a cs = Inr a' \<Longrightarrow> callback (transaction (td a)) \<noteq> None \<Longrightarrow>
     callback (transaction (td a')) \<noteq> None"
proof (induction cs arbitrary: a)
  case Nil
  then show ?case by simp
next
  case (Cons c cs)
  then show ?case
    by (auto split: sum.splits dest: call_setter_keeps_callback)
qed

lemma second_call_fails:
  assumes first: "\<And>a a'. call_setter a c1 = Inr a' \<Longrightarrow> P a'"
    and keep: "\<And>a a'. call_setters a mid = Inr a' \<Longrightarrow> P a \<Longrightarrow> P a'"
    and second: "\<And>a. P a \<Longrightarrow> call_setter a c2 = Inl AssertionFailed"
  shows "call_setters a (pre @ c1 # mid @ c2 # post) = Inl AssertionFailed"
proof (cases "call_setters a pre")
  case (Inl e)
  then show ?thesis by (simp add: call_setters_append error_only [of e])
next
  case (Inr a1)
  show ?thesis
  proof (cases "call_setter a1 c1")
    case (Inl e)
    with Inr show ?thesis by (simp add: call_setters_append error_only [of e])
  next
    case a2: (Inr a2)
    show ?thesis
    proof (cases "call_setters a2 mid")
      case (Inl e)
      with Inr a2 show ?thesis by (simp add: call_setters_append error_only [of e])
    next
      case a3: (Inr a3)
      have "P a3" using keep [OF a3] first [OF a2] by simp
      then have "call_setter a3 c2 = Inl AssertionFailed" by (rule second)
      with Inr a2 a3 show ?thesis by (simp add: call_setters_append)
    qed
  qed
qed

text \<open>
  Claim C8, amended. In any chain of setter calls on one builder, a second \<open>tx\<close> after a
  \<open>tx\<close> that set a non-zero size fails its assertion, a second \<open>rx\<close> after an \<open>rx\<close>
  that set a non-zero size fails its assertion, and a second \<open>callback\<close> after a
  \<open>callback\<close> that set a non-null callback fails its assertion, whatever calls stand
  before, between and after the two. \<open>circular\<close> has no assertion: any number of calls
  succeeds and the last one decides the flag.
\<close>

theorem setter_twice_asserts:
  "(n \<noteq> 0 \<longrightarrow>
      call_setters a (pre @ Set_tx b n # mid @ Set_tx b' n' # post) = Inl AssertionFailed) \<and>
   (n \<noteq> 0 \<longrightarrow>
      call_setters a (pre @ Set_rx b n # mid @ Set_rx b' n' # post) = Inl AssertionFailed) \<and>
   (cb \<noteq> None \<longrightarrow>
      call_setters a (pre @ Set_callback cb e # mid @ Set_callback cb' e' # post) =
        Inl AssertionFailed) \<and>
   call_setters a (map Set_circular ms) =
     Inr (if ms = [] then a else a\<lparr>td := (td a)\<lparr>circular := last ms\<rparr>\<rparr>)"
proof (intro conjI impI)
  assume n: "n \<noteq> 0"
  show "call_setters a (pre @ Set_tx b n # mid @ Set_tx b' n' # post) = Inl AssertionFailed"
    by (rule second_call_fails
          [where P = "\<lambda>x. buf_length (tx_buffer (transaction (td x))) \<noteq> 0"])
       (use n in \<open>auto simp add: adder_tx_def dest: call_setters_keeps_tx split: if_splits\<close>)
  show "call_setters a (pre @ Set_rx b n # mid @ Set_rx b' n' # post) = Inl AssertionFailed"
    by (rule second_call_fails
          [where P = "\<lambda>x. buf_length (rx_buffer (transaction (td x))) \<noteq> 0"])
       (use n in \<open>auto simp add: adder_rx_def dest: call_setters_keeps_rx split: if_splits\<close>)
next
  assume c: "cb \<noteq> None"
  show "call_setters a (pre @ Set_callback cb e # mid @ Set_callback cb' e' # post) =
        Inl AssertionFailed"
    by (rule second_call_fails [where P = "\<lambda>x. callback (transaction (td x)) \<noteq> None"])
       (use c in \<open>auto simp add: adder_callback_def dest: call_setters_keeps_callback
          split: if_splits\<close>)
next
  show "call_setters a (map Set_circular ms) =
     Inr (if ms = [] then a else a\<lparr>td := (td a)\<lparr>circular := last ms\<rparr>\<rparr>)"
    by (induction ms arbitrary: a) (auto simp add: adder_circular_def)
qed

text \<open>
  Claim C8 says that a second call of any of the four setters, \<open>circular\<close> included,
  fails an assertion instead of overriding the field. On a fresh builder
  \<open>circular(true)\<close> followed by \<open>circular(false)\<close> succeeds and leaves the flag false.
\<close>

theorem setter_twice_counterexample:
  "call_setters (transfer_adder (ex_adder 0 True) 0) [Set_circular True, Set_circular False] =
     Inr ((transfer_adder (ex_adder 0 True) 0)
            \<lparr>td := (td (transfer_adder (ex_adder 0 True) 0))\<lparr>circular := False\<rparr>\<rparr>) \<and>
   call_setters (transfer_adder (ex_adder 0 True) 0) [Set_circular True, Set_circular False] \<noteq>
     Inl AssertionFailed"
  by (simp add: adder_circular_def)


theorem setter_twice_asserts_witness:
  "call_setters (transfer_adder (ex_adder 0 True) 0)
     [Set_tx 5 4, Set_rx 6 4, Set_tx 7 8] = Inl AssertionFailed \<and>
   call_setters (transfer_adder (ex_adder 0 True) 0)
     [Set_rx 5 4, Set_rx 6 4] = Inl AssertionFailed \<and>
   call_setters (transfer_adder (ex_adder 0 True) 0)
     [Set_callback (Some 3) 4, Set_circular True, Set_callback (Some 2) 2] =
     Inl AssertionFailed"
proof -
  have n: "(4::nat) \<noteq> 0" and c: "Some (3::nat) \<noteq> None"
    by simp_all
  from n c
    setter_twice_asserts [where n = 4 and a = "transfer_adder (ex_adder 0 True) 0"
      and pre = "[]" and b = 5 and mid = "[Set_rx 6 4]" and b' = 7 and n' = 8 and post = "[]"
      and cb = "Some 3"]
    setter_twice_asserts [where n = 4 and a = "transfer_adder (ex_adder 0 True) 0"
      and pre = "[]" and b = 5 and mid = "[]" and b' = 6 and n' = 4 and post = "[]"
      and cb = "Some 3"]
    setter_twice_asserts [where n = 4 and a = "transfer_adder (ex_adder 0 True) 0"
      and pre = "[]" and mid = "[Set_circular True]" and post = "[]"
      and cb = "Some 3" and e = 4 and cb' = "Some 2" and e' = 2]
  show ?thesis by simp
qed

section \<open>Copies of a builder\<close>

lemma adder_apply_copy:
  "\<not> applied c \<Longrightarrow> td c = td a \<Longrightarrow> adder_owner c = adder_owner a \<Longrightarrow>
     adder_apply cap st c active =
       (fst (transfer cap st (adder_owner a) a active),
        snd (transfer cap st (adder_owner a) a active),
        c\<lparr>applied := True, rc := fst (transfer cap st (adder_owner a) a active)\<rparr>)"
  by (simp add: adder_apply_def Let_def transfer_td_only [of "c\<lparr>applied := True\<rparr>" a])

lemma copy_fields:
  "\<not> applied (I2STransferAdder_assign this a)"
  "td (I2STransferAdder_assign this a) = td a"
  "adder_owner (I2STransferAdder_assign this a) = adder_owner a"
  "\<not> applied (I2STransferAdder_copy raw a)"
  "td (I2STransferAdder_copy raw a) = td a"
  "adder_owner (I2STransferAdder_copy raw a) = adder_owner a"
  by (simp_all add: I2STransferAdder_assign_def I2STransferAdder_copy_def)

text \<open>
  Claim C9. Assigning a builder \<open>a\<close> to another and copy-constructing from \<open>a\<close> both
  give a builder with the descriptor and owner of \<open>a\<close> whose applied flag is false,
  whether or not \<open>a\<close> had been applied. An applied \<open>a\<close> submits nothing more; its copy
  \<open>c\<close> does: \<open>apply\<close> on the copy, and likewise its destructor, performs the call of
  \<open>transfer\<close> that \<open>a\<close> makes when first applied, so the descriptor of \<open>a\<close> is
  started on the hardware (busy flag clear, hardware inactive), or appended to the queue
  (room), or rejected with -1 (queue full), once more.
\<close>

theorem copy_submits_again:
  "applied (I2STransferAdder_assign this a) = False \<and>
   applied (I2STransferAdder_copy raw a) = False \<and>
   td (I2STransferAdder_assign this a) = td a \<and>
   td (I2STransferAdder_copy raw a) = td a \<and>
   adder_owner (I2STransferAdder_assign this a) = adder_owner a \<and>
   adder_owner (I2STransferAdder_copy raw a) = adder_owner a \<and>
   (applied a \<longrightarrow> adder_apply cap st a active = (rc a, st, a)) \<and>
   (c = I2STransferAdder_assign this a \<or> c = I2STransferAdder_copy raw a \<longrightarrow>
      adder_apply cap st c active =
        (fst (transfer cap st (adder_owner a) a active),
         snd (transfer cap st (adder_owner a) a active),
         c\<lparr>applied := True, rc := fst (transfer cap st (adder_owner a) a active)\<rparr>) \<and>
      adder_destroy cap st c active = fst (snd (adder_apply cap st c active)) \<and>
      (\<not> busy (objs st (adder_owner a)) \<and> \<not> active \<longrightarrow>
         fst (adder_apply cap st c active) = 0 \<and>
         hal (fst (snd (adder_apply cap st c active))) =
           hal st @
           (if owner st = Some (adder_owner a) then []
            else full_configuration (adder_owner a) (objs st (adder_owner a))) @
           [I2s_master_transfer (adder_owner a) (tx_buffer (transaction (td a)))
              (rx_buffer (transaction (td a))) (circular (td a)) (event (transaction (td a)))] \<and>
         current_transaction (objs (fst (snd (adder_apply cap st c active))) (adder_owner a)) =
           td a \<and>
         transaction_buffer (fst (snd (adder_apply cap st c active))) = transaction_buffer st) \<and>
      ((busy (objs st (adder_owner a)) \<or> active) \<and> length (transaction_buffer st) < cap \<longrightarrow>
         fst (adder_apply cap st c active) = 0 \<and>
         transaction_buffer (fst (snd (adder_apply cap st c active))) =
           transaction_buffer st @ [(adder_owner a, td a)] \<and>
         hal (fst (snd (adder_apply cap st c active))) = hal st) \<and>
      ((busy (objs st (adder_owner a)) \<or> active) \<and> cap \<le> length (transaction_buffer st) \<longrightarrow>
         fst (adder_apply cap st c active) = - 1 \<and>
         transaction_buffer (fst (snd (adder_apply cap st c active))) = transaction_buffer st \<and>
         hal (fst (snd (adder_apply cap st c active))) = hal st))"
proof -
  have orig: "applied a \<longrightarrow> adder_apply cap st a active = (rc a, st, a)"
    by (simp add: adder_apply_again)
  have copy: "adder_apply cap st c active =
        (fst (transfer cap st (adder_owner a) a active),
         snd (transfer cap st (adder_owner a) a active),
         c\<lparr>applied := True, rc := fst (transfer cap st (adder_owner a) a active)\<rparr>) \<and>
      adder_destroy cap st c active = fst (snd (adder_apply cap st c active)) \<and>
      (\<not> busy (objs st (adder_owner a)) \<and> \<not> active \<longrightarrow>
         fst (adder_apply cap st c active) = 0 \<and>
         hal (fst (snd (adder_apply cap st c active))) =
           hal st @
           (if owner st = Some (adder_owner a) then []
            else full_configuration (adder_owner a) (objs st (adder_owner a))) @
           [I2s_master_transfer (adder_owner a) (tx_buffer (transaction (td a)))
              (rx_buffer (transaction (td a))) (circular (td a)) (event (transaction (td a)))] \<and>
         current_transaction (objs (fst (snd (adder_apply cap st c active))) (adder_owner a)) =
           td a \<and>
         transaction_buffer (fst (snd (adder_apply cap st c active))) = transaction_buffer st) \<and>
      ((busy (objs st (adder_owner a)) \<or> active) \<and> length (transaction_buffer st) < cap \<longrightarrow>
         fst (adder_apply cap st c active) = 0 \<and>
         transaction_buffer (fst (snd (adder_apply cap st c active))) =
           transaction_buffer st @ [(adder_owner a, td a)] \<and>
         hal (fst (snd (adder_apply cap st c active))) = hal st) \<and>
      ((busy (objs st (adder_owner a)) \<or> active) \<and> cap \<le> length (transaction_buffer st) \<longrightarrow>
         fst (adder_apply cap st c active) = - 1 \<and>
         transaction_buffer (fst (snd (adder_apply cap st c active))) = transaction_buffer st \<and>
         hal (fst (snd (adder_apply cap st c active))) = hal st)"
    if c: "\<not> applied c" "td c = td a" "adder_owner c = adder_owner a" for c
    using adder_apply_submits [OF c(1), of st active cap]
      adder_apply_copy [OF c, of cap st active]
    by (simp add: c(2,3) adder_destroy_def)
  show ?thesis
    using orig copy [OF copy_fields(1,2,3)] copy [OF copy_fields(4,5,6)] copy_fields
    by blast
qed

theorem copy_submits_again_witness:
  "current_transaction
     (objs (fst (snd (adder_apply 2 (ex_driver False None []) (ex_adder 5 False) False))) 0) =
     ex_td 5 4 \<and>
   transaction_buffer
     (fst (snd (adder_apply 2 (ex_driver False None []) (ex_adder 5 False) False))) = [] \<and>
   fst (snd (adder_apply 2
          (fst (snd (adder_apply 2 (ex_driver False None []) (ex_adder 5 False) False)))
          (snd (snd (adder_apply 2 (ex_driver False None []) (ex_adder 5 False) False)))
          True)) =
     fst (snd (adder_apply 2 (ex_driver False None []) (ex_adder 5 False) False)) \<and>
   transaction_buffer
     (fst (snd (adder_apply 2
          (fst (snd (adder_apply 2 (ex_driver False None []) (ex_adder 5 False) False)))
          (I2STransferAdder_copy (ex_adder 0 True)
             (snd (snd (adder_apply 2 (ex_driver False None []) (ex_adder 5 False) False))))
          True))) =
     [(0, ex_td 5 4)] \<and>
   hal (fst (snd (adder_apply 2 (ex_driver False (Some 0) [])
                   (I2STransferAdder_assign (ex_adder 0 False) (ex_adder 5 True)) False))) =
     [I2s_master_transfer 0 \<lparr>buf = 5, buf_length = 4\<rparr> \<lparr>buf = 0, buf_length = 0\<rparr> False 4] \<and>
   fst (adder_apply 2 (ex_driver True None [(0, ex_td 2 4), (0, ex_td 3 4)])
          (I2STransferAdder_copy (ex_adder 0 True) (ex_adder 5 True)) False) = - 1"
proof -
  let ?idle = "ex_driver False (Some 0) []"
  let ?full = "ex_driver True None [(0, ex_td 2 4), (0, ex_td 3 4)]"
  let ?r = "adder_apply 2 (ex_driver False None []) (ex_adder 5 False) False"
  let ?st1 = "fst (snd ?r)"
  let ?a1 = "snd (snd ?r)"
  let ?c1 = "I2STransferAdder_copy (ex_adder 0 True) ?a1"
  let ?c2 = "I2STransferAdder_assign (ex_adder 0 False) (ex_adder 5 True)"
  let ?c3 = "I2STransferAdder_copy (ex_adder 0 True) (ex_adder 5 True)"
  have r: "applied ?a1" "adder_owner ?a1 = 0" "td ?a1 = ex_td 5 4"
    "busy (objs ?st1 0)" "transaction_buffer ?st1 = []"
    "current_transaction (objs ?st1 0) = ex_td 5 4"
    by (simp_all add: adder_apply_def transfer_def Let_def start_transfer_simps upd_simps
        ex_defs)
  note t1 = copy_submits_again [where a = ?a1 and st = ?st1 and cap = 2 and active = True
      and c = ?c1 and raw = "ex_adder 0 True"]
  note t2 = copy_submits_again [where a = "ex_adder 5 True" and st = ?idle and cap = 2
      and active = False and c = ?c2 and this = "ex_adder 0 False"]
  note t3 = copy_submits_again [where a = "ex_adder 5 True" and st = ?full and cap = 2
      and active = False and c = ?c3 and raw = "ex_adder 0 True"]
  have room: "(busy (objs ?st1 (adder_owner ?a1)) \<or> True) \<and>
      length (transaction_buffer ?st1) < 2"
    by (simp add: r)
  from t1 r(1) have "adder_apply 2 ?st1 ?a1 True = (rc ?a1, ?st1, ?a1)"
    by blast
  then have w1: "fst (snd (adder_apply 2 ?st1 ?a1 True)) = ?st1"
    by (simp only: fst_conv snd_conv)
  from t1 room have "transaction_buffer (fst (snd (adder_apply 2 ?st1 ?c1 True))) =
      transaction_buffer ?st1 @ [(adder_owner ?a1, td ?a1)]"
    by blast
  then have w2: "transaction_buffer (fst (snd (adder_apply 2 ?st1 ?c1 True))) =
      [(0, ex_td 5 4)]"
    by (simp only: r append_Nil)
  have idle: "\<not> busy (objs ?idle (adder_owner (ex_adder 5 True))) \<and> \<not> False"
    by (simp add: ex_defs)
  from t2 idle have "hal (fst (snd (adder_apply 2 ?idle ?c2 False))) =
      hal ?idle @
      (if owner ?idle = Some (adder_owner (ex_adder 5 True)) then []
       else full_configuration (adder_owner (ex_adder 5 True))
              (objs ?idle (adder_owner (ex_adder 5 True)))) @
      [I2s_master_transfer (adder_owner (ex_adder 5 True))
         (tx_buffer (transaction (td (ex_adder 5 True))))
         (rx_buffer (transaction (td (ex_adder 5 True)))) (circular (td (ex_adder 5 True)))
         (event (transaction (td (ex_adder 5 True))))]"
    by blast
  then have w3: "hal (fst (snd (adder_apply 2 ?idle ?c2 False))) =
     [I2s_master_transfer 0 \<lparr>buf = 5, buf_length = 4\<rparr> \<lparr>buf = 0, buf_length = 0\<rparr> False 4]"
    by (simp add: ex_defs)
  have full: "(busy (objs ?full (adder_owner (ex_adder 5 True))) \<or> False) \<and>
      2 \<le> length (transaction_buffer ?full)"
    by (simp add: ex_defs)
  from t3 full have w4: "fst (adder_apply 2 ?full ?c3 False) = - 1"
    by blast
  from r(6) r(5) w1 w2 w3 w4 show ?thesis
    by (simp only: simp_thms)
qed

section \<open>The shared queue\<close>

lemma transfer_queue_bound:
  "length (transaction_buffer st) \<le> cap \<Longrightarrow>
     length (transaction_buffer (snd (transfer cap st h a active))) \<le> cap"
  by (auto simp add: transfer_def queue_transfer_def full_def push_def Let_def
      start_transfer_simps upd_simps)

lemma clear_transfer_buffer_empty:
  "length (transaction_buffer st) \<le> cap \<Longrightarrow>
     transaction_buffer (clear_transfer_buffer cap st h) = []"
  by (auto simp add: clear_transfer_buffer_def reset_def)

lemma driver_queue_same: "(st::driver)\<lparr>transaction_buffer := transaction_buffer st\<rparr> = st"
  by (cases st) simp

lemma clear_transfer_buffer_frame:
  "clear_transfer_buffer cap st h =
     st\<lparr>transaction_buffer := transaction_buffer (clear_transfer_buffer cap st h)\<rparr>"
  by (simp add: clear_transfer_buffer_def driver_queue_same)

lemma clear_transfer_buffer_simps:
  "objs (clear_transfer_buffer cap st h) = objs st"
  "owner (clear_transfer_buffer cap st h) = owner st"
  "hal (clear_transfer_buffer cap st h) = hal st"
  "minar (clear_transfer_buffer cap st h) = minar st"
  by (simp_all add: clear_transfer_buffer_def)

lemma abort_all_transfers_eq:
  "length (transaction_buffer st) \<le> cap \<Longrightarrow>
     abort_all_transfers cap st h =
       (if cap \<noteq> 0
        then upd (hal_emit (st\<lparr>transaction_buffer := []\<rparr>) [I2s_abort_asynch h]) h
               (\<lambda>obj. obj\<lparr>busy := False\<rparr>)
        else hal_emit st [I2s_abort_asynch h])"
  by (simp add: abort_all_transfers_def abort_transfer_def clear_transfer_buffer_def reset_def
      Let_def dequeue_transaction_def hal_emit_simps)

text \<open>
  Claim C10, amended. The queue and the configuration owner are single components of the
  driver state, shared by all objects. On a queue within its capacity,
  \<open>clear_transfer_buffer\<close> called on any object \<open>h\<close> empties the queue, also of what
  another object \<open>h1\<close> has just submitted, and changes nothing else: objects (busy flags
  and current transfers), owner and HAL trace are as before, so the transfer running on
  the hardware is not touched. \<open>abort_all_transfers\<close> empties the queue as well and keeps
  the owner and every object's current transfer, but it tells the hardware to abort and,
  when the queue is compiled in, clears the busy flag of \<open>h\<close>.
\<close>

theorem clear_transfer_buffer_shared:
  assumes "length (transaction_buffer st) \<le> cap"
  shows "transaction_buffer (clear_transfer_buffer cap st h) = [] \<and>
     transaction_buffer
       (clear_transfer_buffer cap (snd (transfer cap st h1 a active)) h) = [] \<and>
     clear_transfer_buffer cap st h =
       st\<lparr>transaction_buffer := transaction_buffer (clear_transfer_buffer cap st h)\<rparr> \<and>
     objs (clear_transfer_buffer cap st h) = objs st \<and>
     owner (clear_transfer_buffer cap st h) = owner st \<and>
     hal (clear_transfer_buffer cap st h) = hal st \<and>
     transaction_buffer (abort_all_transfers cap st h) = [] \<and>
     hal (abort_all_transfers cap st h) = hal st @ [I2s_abort_asynch h] \<and>
     owner (abort_all_transfers cap st h) = owner st \<and>
     current_transaction (objs (abort_all_transfers cap st h) h') =
       current_transaction (objs st h') \<and>
     busy (objs (abort_all_transfers cap st h) h) = (cap = 0 \<and> busy (objs st h))"
proof -
  note e = abort_all_transfers_eq [OF assms]
  have c: "transaction_buffer (clear_transfer_buffer cap st h) = []"
    by (rule clear_transfer_buffer_empty [OF assms])
  have c1: "transaction_buffer
       (clear_transfer_buffer cap (snd (transfer cap st h1 a active)) h) = []"
    by (rule clear_transfer_buffer_empty [OF transfer_queue_bound [OF assms]])
  have q: "transaction_buffer (abort_all_transfers cap st h) = []"
    using assms by (auto simp add: e upd_simps hal_emit_simps)
  have t: "hal (abort_all_transfers cap st h) = hal st @ [I2s_abort_asynch h]"
    by (simp add: e upd_simps hal_emit_simps)
  have o: "owner (abort_all_transfers cap st h) = owner st"
    by (simp add: e upd_simps hal_emit_simps)
  have ct: "current_transaction (objs (abort_all_transfers cap st h) h') =
       current_transaction (objs st h')"
    by (simp add: e upd_simps hal_emit_simps)
  have b: "busy (objs (abort_all_transfers cap st h) h) = (cap = 0 \<and> busy (objs st h))"
    by (simp add: e upd_simps hal_emit_simps)
  show ?thesis
    by (intro conjI)
       (fact c, fact c1, rule clear_transfer_buffer_frame,
        simp_all only: clear_transfer_buffer_simps q t o ct b)
qed

text \<open>
  Claim C10 says that \<open>abort_all_transfers\<close>, like \<open>clear_transfer_buffer\<close>, leaves the
  caller's busy flag and the transfer running on the hardware unchanged. Object 0 is busy;
  after \<open>abort_all_transfers\<close> on it the hardware has been told to abort and the busy
  flag is clear.
\<close>

theorem abort_all_transfers_counterexample:
  "busy (objs (ex_driver True (Some 0) [(1, ex_td 2 4)]) 0) \<and>
   hal (ex_driver True (Some 0) [(1, ex_td 2 4)]) = [] \<and>
   \<not> busy (objs (abort_all_transfers 1 (ex_driver True (Some 0) [(1, ex_td 2 4)]) 0) 0) \<and>
   hal (abort_all_transfers 1 (ex_driver True (Some 0) [(1, ex_td 2 4)]) 0) =
     [I2s_abort_asynch 0]"
  by (simp add: abort_all_transfers_def abort_transfer_def clear_transfer_buffer_def reset_def
      Let_def dequeue_transaction_def hal_emit_simps upd_simps ex_defs)

theorem clear_transfer_buffer_shared_witness:
  "transaction_buffer
     (clear_transfer_buffer 2 (ex_driver True (Some 0) [(1, ex_td 2 4), (0, ex_td 3 4)]) 0) = [] \<and>
   objs (clear_transfer_buffer 2 (ex_driver True (Some 0) [(1, ex_td 2 4), (0, ex_td 3 4)]) 0) =
     objs (ex_driver True (Some 0) [(1, ex_td 2 4), (0, ex_td 3 4)]) \<and>
   transaction_buffer
     (abort_all_transfers 2 (ex_driver True (Some 0) [(1, ex_td 2 4), (0, ex_td 3 4)]) 0) = []"
proof -
  have l: "length (transaction_buffer
      (ex_driver True (Some 0) [(1, ex_td 2 4), (0, ex_td 3 4)])) \<le> 2"
    by (simp add: ex_driver_def)
  from clear_transfer_buffer_shared [OF l] show ?thesis by simp
qed

end
